theory Spec2Isabelle
  imports Complex_Main
begin

section \<open>Model-based volume creation: the volume-fraction compositing pass\<close>

text \<open>
  This theory embeds \<open>ModelBasedAdapter.create_simulation_volume\<close>
  (model\_based\_adapter.py). A tensor over the voxel grid is the list of its entries in a
  fixed enumeration of the voxels; every tensor operation of the method is elementwise, so
  the three-dimensional shape plays no part. Tensor entries are real numbers: rounding of
  the 32-bit floats is not modelled.
\<close>

subsection \<open>Data\<close>

text \<open>
  What \<open>structure_properties[key]\<close> can hold: \<open>None\<close>, a tensor, a Python or numpy
  number, or a value of any other type, of which only the text printed for its type matters.
\<close>

datatype property_value =
    NoneValue
  | TensorValue "real list"
  | NumberValue real
  | OtherValue string

text \<open>
  A structure as the method reads it: its \<open>geometrical_volume\<close> and the lookup
  \<open>properties_for_wavelength\<close>, both computed by collaborators outside this method.
\<close>

record tissue_structure =
  geometrical_volume :: "real list"
  properties_for_wavelength :: "nat \<Rightarrow> string \<Rightarrow> property_value"

text \<open>
  The exceptions of the method, \<open>ValueError\<close> and \<open>AssertionError\<close> with their messages,
  the failure of the allocator, and \<open>TorchError\<close> for an exception that the tensor library
  raises on operands it refuses (tensors of different shapes, a value it cannot write).
\<close>

datatype error =
    ValueError string
  | AssertionError string
  | AllocationError
  | TorchError

record volume_state =
  volumes :: "(string \<times> real list) list"
  global_volume_fractions :: "real list"
  max_added_fractions :: "real list"

record settings =
  dim_px :: "int \<times> int \<times> int"
  volume_keys :: "string list"
  wavelength :: nat

text \<open>
  Modelled from the spec: the constant \<open>Tags.DATA_FIELD_SEGMENTATION\<close>, the key of the
  categorical field, is declared outside the given sources; the results do not depend on
  the string chosen here.
\<close>

definition DATA_FIELD_SEGMENTATION :: string where
  "DATA_FIELD_SEGMENTATION = ''seg''"

subsection \<open>Elementwise tensor operations\<close>

text \<open>\<open>x[sel] = y[sel]\<close>, \<open>x[sel] = c\<close> and \<open>x[sel] += y[sel]\<close> for a Boolean tensor \<open>sel\<close>.\<close>

definition masked_assign :: "real list \<Rightarrow> bool list \<Rightarrow> real list \<Rightarrow> real list" where
  "masked_assign xs sel ys = map (\<lambda>(x, b, y). if b then y else x) (zip xs (zip sel ys))"

definition masked_fill :: "real list \<Rightarrow> bool list \<Rightarrow> real \<Rightarrow> real list" where
  "masked_fill xs sel c = map (\<lambda>(x, b). if b then c else x) (zip xs sel)"

definition masked_add :: "real list \<Rightarrow> bool list \<Rightarrow> real list \<Rightarrow> real list" where
  "masked_add xs sel ys = map (\<lambda>(x, b, y). if b then x + y else x) (zip xs (zip sel ys))"

definition tensor_and :: "bool list \<Rightarrow> bool list \<Rightarrow> bool list" where
  "tensor_and bs cs = map (\<lambda>(b, c). b \<and> c) (zip bs cs)"

definition tensor_any :: "bool list \<Rightarrow> bool" where
  "tensor_any bs = list_ex (\<lambda>b. b) bs"

subsection \<open>The fraction compositor (lines 73 to 88)\<close>

text \<open>
  \<open>mask = (structure_volume_fractions > 0) & (global_volume_fractions < 1)\<close>.
\<close>

definition fraction_mask :: "real list \<Rightarrow> real list \<Rightarrow> bool list" where
  "fraction_mask gvf svf =
     tensor_and (map (\<lambda>s. 0 < s) svf) (map (\<lambda>g. g < 1) gvf)"

text \<open>
  Line 80 indexes with \<open>added_volume_fraction <= 1 & mask\<close>. In Python \<open>&\<close> binds tighter
  than \<open><=\<close>, so the index is \<open>added_volume_fraction <= (1 & mask)\<close>, where \<open>1 & mask\<close> is 1
  at the voxels of the mask and 0 elsewhere. The clamp of lines 83 to 88 runs only when
  some entry exceeds 1, and then rewrites exactly the entries that do.
\<close>

definition added_volume_fraction :: "real list \<Rightarrow> real list \<Rightarrow> real list" where
  "added_volume_fraction gvf svf =
     (let mask = fraction_mask gvf svf;
          added0 = map (\<lambda>(g, s). g + s) (zip gvf svf);
          one_and_mask = map (\<lambda>b. if b then (1::real) else 0) mask;
          sel = map (\<lambda>(a, c). a \<le> c) (zip added0 one_and_mask);
          added1 = masked_assign added0 sel svf;
          selector_more_than_1 = map (\<lambda>a. 1 < a) added1
      in if tensor_any selector_more_than_1
         then masked_assign added1 selector_more_than_1
                (map (\<lambda>(r, f). min r f) (zip (map (\<lambda>g. 1 - g) gvf) svf))
         else added1)"

subsection \<open>The property accumulator (lines 89 to 105)\<close>

text \<open>
  One pass of the body of \<open>for key in volumes.keys()\<close> on the field stored under \<open>key\<close>,
  together with \<open>max_added_fractions\<close>, which only the segmentation branch writes.
  The tests come in the order of the source: \<open>None\<close>, the segmentation key, a tensor, a
  number, anything else. Line 94 hands the segmentation value to the library's masked
  assignment without testing its type; a number is written to every selected voxel, and the
  refusal of any other value is the library's, not this method's. A tensor value is indexed
  by the mask in line 100, which the library refuses unless the value is grid-shaped.
\<close>

definition unsupported_type_message :: "string \<Rightarrow> string" where
  "unsupported_type_message tname =
     ''Unsupported type of structure property. '' @ ''Was '' @ tname @ ''.''"

definition update_volume ::
  "bool list \<Rightarrow> real list \<Rightarrow> string \<Rightarrow> property_value \<Rightarrow> real list \<times> real list
     \<Rightarrow> error + (real list \<times> real list)" where
  "update_volume msk added key p vm =
     (case vm of (vol, maxf) \<Rightarrow>
        if p = NoneValue then Inr (vol, maxf)
        else if key = DATA_FIELD_SEGMENTATION then
          (let added_fraction_greater_than_any_added_fraction =
                 map (\<lambda>(a, m). m < a) (zip added maxf);
               sel = tensor_and added_fraction_greater_than_any_added_fraction msk
           in case p of
                NumberValue c \<Rightarrow> Inr (masked_fill vol sel c, masked_assign maxf sel added)
              | _ \<Rightarrow> Inl TorchError)
        else
          (case p of
             TensorValue t \<Rightarrow>
               if length t = length msk
               then Inr (masked_add vol msk (map (\<lambda>(a, x). a * x) (zip added t)), maxf)
               else Inl TorchError
           | NumberValue c \<Rightarrow> Inr (masked_add vol msk (map (\<lambda>a. a * c) added), maxf)
           | OtherValue tname \<Rightarrow> Inl (ValueError (unsupported_type_message tname))
           | NoneValue \<Rightarrow> Inr (vol, maxf)))"

text \<open>
  The loop over the keys. A dictionary holds each key once, so visiting the entries in
  order is visiting the keys in order; an exception leaves the loop at once.
\<close>

fun process_keys ::
  "bool list \<Rightarrow> real list \<Rightarrow> (string \<Rightarrow> property_value) \<Rightarrow> (string \<times> real list) list
     \<Rightarrow> real list \<Rightarrow> error + ((string \<times> real list) list \<times> real list)" where
  "process_keys msk added props [] maxf = Inr ([], maxf)"
| "process_keys msk added props ((key, vol) # rest) maxf =
     (case update_volume msk added key (props key) (vol, maxf) of
        Inl e \<Rightarrow> Inl e
      | Inr (vol', maxf') \<Rightarrow>
          (case process_keys msk added props rest maxf' of
             Inl e \<Rightarrow> Inl e
           | Inr (rest', maxf'') \<Rightarrow> Inr ((key, vol') # rest', maxf'')))"

subsection \<open>One structure, and the loop over the structures (lines 68 to 107)\<close>

text \<open>
  The sum of line 78 needs \<open>geometrical_volume\<close> in the shape of the grid; the key loop
  runs on the mask and the added fraction of lines 75 to 88, and line 107 adds the added
  fraction to \<open>global_volume_fractions\<close> on the mask.
\<close>

definition process_structure ::
  "nat \<Rightarrow> tissue_structure \<Rightarrow> volume_state \<Rightarrow> error + volume_state" where
  "process_structure wl S st =
     (let structure_properties = properties_for_wavelength S wl;
          structure_volume_fractions = geometrical_volume S;
          gvf = global_volume_fractions st;
          mask = fraction_mask gvf structure_volume_fractions;
          added = added_volume_fraction gvf structure_volume_fractions
      in if length structure_volume_fractions \<noteq> length gvf then Inl TorchError
         else case process_keys mask added structure_properties (volumes st)
                (max_added_fractions st) of
           Inl e \<Rightarrow> Inl e
         | Inr (vols', maxf') \<Rightarrow>
             Inr \<lparr>volumes = vols',
                  global_volume_fractions = masked_add gvf mask added,
                  max_added_fractions = maxf'\<rparr>)"

fun process_structures ::
  "nat \<Rightarrow> tissue_structure list \<Rightarrow> volume_state \<Rightarrow> error + volume_state" where
  "process_structures wl [] st = Inr st"
| "process_structures wl (S # Ss) st =
     (case process_structure wl S st of
        Inl e \<Rightarrow> Inl e
      | Inr st' \<Rightarrow> process_structures wl Ss st')"

subsection \<open>Allocation, validation and the whole method\<close>

text \<open>
  Modelled from the spec: \<open>create_empty_volumes\<close> belongs to the base class, which is not
  among the given sources. Following section 4.1 of the specification it allocates one
  zero-initialised field per property key over the grid, and fails if a dimension is not
  positive or there is no key.
\<close>

definition create_empty_volumes ::
  "settings \<Rightarrow> error + ((string \<times> real list) list \<times> int \<times> int \<times> int)" where
  "create_empty_volumes cfg =
     (case dim_px cfg of (x, y, z) \<Rightarrow>
        if x \<le> 0 \<or> y \<le> 0 \<or> z \<le> 0 \<or> volume_keys cfg = [] then Inl AllocationError
        else Inr (map (\<lambda>k. (k, replicate (nat (x * y * z)) 0)) (remdups (volume_keys cfg)),
                  x, y, z))"

text \<open>
  Lines 62 to 107: allocation of the fields and of the two bookkeeping tensors, then the
  loop. The structures are the result of \<open>priority_sorted_structures\<close>, a collaborator.
\<close>

definition composite_structures ::
  "settings \<Rightarrow> tissue_structure list \<Rightarrow> error + volume_state" where
  "composite_structures cfg structures =
     (case create_empty_volumes cfg of
        Inl e \<Rightarrow> Inl e
      | Inr (vols, x_dim_px, y_dim_px, z_dim_px) \<Rightarrow>
          process_structures (wavelength cfg) structures
            \<lparr>volumes = vols,
             global_volume_fractions = replicate (nat (x_dim_px * y_dim_px * z_dim_px)) 0,
             max_added_fractions = replicate (nat (x_dim_px * y_dim_px * z_dim_px)) 0\<rparr>)"

text \<open>
  Line 109: \<open>(torch.abs(global_volume_fractions[global_volume_fractions > 1]) < 1e-5).any()\<close>.
\<close>

definition fractions_invalid :: "real list \<Rightarrow> bool" where
  "fractions_invalid gvf =
     tensor_any (map (\<lambda>g. \<bar>g\<bar> < 1 / 100000) (filter (\<lambda>g. 1 < g) gvf))"

definition invalid_composition_message :: string where
  "invalid_composition_message =
     ''Invalid Molecular composition! The volume fractions of all molecules must be''
     @ ''exactly 100%!''"

text \<open>
  Lines 109 to 117: the check and the return. The conversion of line 115 changes the
  device and the number format of a field, not its entries, which are real numbers here.
\<close>

definition validate_and_return :: "volume_state \<Rightarrow> error + (string \<times> real list) list" where
  "validate_and_return st =
     (if fractions_invalid (global_volume_fractions st)
      then Inl (AssertionError invalid_composition_message)
      else Inr (volumes st))"

definition create_simulation_volume ::
  "settings \<Rightarrow> tissue_structure list \<Rightarrow> error + (string \<times> real list) list" where
  "create_simulation_volume cfg structures =
     (case composite_structures cfg structures of
        Inl e \<Rightarrow> Inl e
      | Inr st \<Rightarrow> validate_and_return st)"

section \<open>Notions used to state the properties\<close>

text \<open>The newly claimed fraction at one voxel, as lines 78 to 88 compute it.\<close>

definition voxel_added :: "real \<Rightarrow> real \<Rightarrow> real" where
  "voxel_added g s =
     (let a1 = (if g + s \<le> (if 0 < s \<and> g < 1 then 1 else 0) then s else g + s)
      in if 1 < a1 then min (1 - g) s else a1)"

text \<open>
  The fraction that each structure of a sequence claims at one voxel: \<open>g\<close> is the cumulative
  occupancy there and the list holds the structures' occupancies there, in processing
  order. A structure that is not active at the voxel claims nothing.
\<close>

fun voxel_claims :: "real \<Rightarrow> real list \<Rightarrow> real list" where
  "voxel_claims g [] = []"
| "voxel_claims g (s # ss) =
     (if 0 < s \<and> g < 1
      then voxel_added g s # voxel_claims (g + voxel_added g s) ss
      else 0 # voxel_claims g ss)"

text \<open>
  A state over a grid of \<open>n\<close> voxels: every tensor has \<open>n\<close> entries and, \<open>volumes\<close> being a
  dictionary, no key occurs twice.
\<close>

definition state_shaped :: "nat \<Rightarrow> volume_state \<Rightarrow> bool" where
  "state_shaped n st \<longleftrightarrow>
     distinct (map fst (volumes st)) \<and>
     list_all (\<lambda>(k, f). length f = n) (volumes st) \<and>
     length (global_volume_fractions st) = n \<and>
     length (max_added_fractions st) = n"

text \<open>The entry of the field stored under a key at a voxel, when the key is present.\<close>

definition field_at :: "(string \<times> real list) list \<Rightarrow> string \<Rightarrow> nat \<Rightarrow> real option" where
  "field_at vols key v = map_option (\<lambda>f. f ! v) (map_of vols key)"

text \<open>
  The number of voxels of the grid, and the state with which the loop starts: the fields of
  \<open>create_empty_volumes\<close> and the two bookkeeping tensors of lines 63 to 65.
\<close>

definition voxel_count :: "settings \<Rightarrow> nat" where
  "voxel_count cfg = (case dim_px cfg of (x, y, z) \<Rightarrow> nat (x * y * z))"

definition initial_state :: "settings \<Rightarrow> volume_state" where
  "initial_state cfg =
     \<lparr>volumes = map (\<lambda>k. (k, replicate (voxel_count cfg) 0)) (remdups (volume_keys cfg)),
      global_volume_fractions = replicate (voxel_count cfg) 0,
      max_added_fractions = replicate (voxel_count cfg) 0\<rparr>"

text \<open>
  Concrete inputs for evaluating the method: a grid of two voxels with one continuous field
  and the segmentation field, and a structure given by its occupancies and its two values.
\<close>

definition example_settings :: settings where
  "example_settings = \<lparr>dim_px = (1, 1, 2), volume_keys = [''mua'', ''seg''], wavelength = 800\<rparr>"

definition example_structure ::
  "real list \<Rightarrow> property_value \<Rightarrow> property_value \<Rightarrow> tissue_structure" where
  "example_structure geometry mua seg =
     \<lparr>geometrical_volume = geometry,
      properties_for_wavelength =
        (\<lambda>wl key. if key = ''mua'' then mua else if key = ''seg'' then seg else NoneValue)\<rparr>"

section \<open>Voxelwise reading of the tensor operations\<close>

lemma length_masked_assign:
  "length (masked_assign xs sel ys) = min (length xs) (min (length sel) (length ys))"
  by (simp add: masked_assign_def)

lemma length_masked_fill: "length (masked_fill xs sel c) = min (length xs) (length sel)"
  by (simp add: masked_fill_def)

lemma length_masked_add:
  "length (masked_add xs sel ys) = min (length xs) (min (length sel) (length ys))"
  by (simp add: masked_add_def)

lemma length_tensor_and: "length (tensor_and bs cs) = min (length bs) (length cs)"
  by (simp add: tensor_and_def)

lemma nth_masked_assign:
  "v < length xs \<Longrightarrow> v < length sel \<Longrightarrow> v < length ys
     \<Longrightarrow> masked_assign xs sel ys ! v = (if sel ! v then ys ! v else xs ! v)"
  by (simp add: masked_assign_def)

lemma nth_masked_fill:
  "v < length xs \<Longrightarrow> v < length sel
     \<Longrightarrow> masked_fill xs sel c ! v = (if sel ! v then c else xs ! v)"
  by (simp add: masked_fill_def)

lemma nth_masked_add:
  "v < length xs \<Longrightarrow> v < length sel \<Longrightarrow> v < length ys
     \<Longrightarrow> masked_add xs sel ys ! v = (if sel ! v then xs ! v + ys ! v else xs ! v)"
  by (simp add: masked_add_def)

lemma nth_tensor_and:
  "v < length bs \<Longrightarrow> v < length cs \<Longrightarrow> tensor_and bs cs ! v = (bs ! v \<and> cs ! v)"
  by (simp add: tensor_and_def)

lemma tensor_any_nth: "tensor_any bs = (\<exists>v < length bs. bs ! v)"
  unfolding tensor_any_def list_ex_iff by (metis in_set_conv_nth)

lemma length_fraction_mask:
  "length svf = length gvf \<Longrightarrow> length (fraction_mask gvf svf) = length gvf"
  by (simp add: fraction_mask_def length_tensor_and)

lemma nth_fraction_mask:
  "length svf = length gvf \<Longrightarrow> v < length gvf
     \<Longrightarrow> fraction_mask gvf svf ! v = (0 < svf ! v \<and> gvf ! v < 1)"
  by (simp add: fraction_mask_def nth_tensor_and)

lemma length_added_volume_fraction:
  "length svf = length gvf \<Longrightarrow> length (added_volume_fraction gvf svf) = length gvf"
  by (simp add: added_volume_fraction_def Let_def length_masked_assign length_fraction_mask)

lemma nth_added_volume_fraction:
  assumes len: "length svf = length gvf" and v: "v < length gvf"
  shows "added_volume_fraction gvf svf ! v = voxel_added (gvf ! v) (svf ! v)"
proof -
  define added1 where "added1 =
    masked_assign (map (\<lambda>(g, s). g + s) (zip gvf svf))
      (map (\<lambda>(a, c). a \<le> c) (zip (map (\<lambda>(g, s). g + s) (zip gvf svf))
         (map (\<lambda>b. if b then (1::real) else 0) (fraction_mask gvf svf)))) svf"
  have len1: "length added1 = length gvf"
    using len by (simp add: added1_def length_masked_assign length_fraction_mask)
  have a1: "added1 ! v =
      (if gvf ! v + svf ! v \<le> (if 0 < svf ! v \<and> gvf ! v < 1 then 1 else 0)
       then svf ! v else gvf ! v + svf ! v)"
    using len v
    by (simp add: added1_def nth_masked_assign length_fraction_mask nth_fraction_mask)
  show ?thesis
  proof (cases "tensor_any (map (\<lambda>a. 1 < a) added1)")
    case True
    then have "added_volume_fraction gvf svf =
        masked_assign added1 (map (\<lambda>a. 1 < a) added1)
          (map (\<lambda>(r, f). min r f) (zip (map (\<lambda>g. 1 - g) gvf) svf))"
      by (simp add: added_volume_fraction_def Let_def added1_def)
    then show ?thesis
      using len v len1 a1 by (simp add: nth_masked_assign voxel_added_def Let_def)
  next
    case False
    then have eq: "added_volume_fraction gvf svf = added1"
      by (simp add: added_volume_fraction_def Let_def added1_def)
    from False have "\<not> 1 < added1 ! v"
      using v len1 by (auto simp: tensor_any_nth)
    then show ?thesis
      using a1 by (simp add: eq voxel_added_def Let_def)
  qed
qed

lemma voxel_added_fits:
  "0 < s \<Longrightarrow> g < 1 \<Longrightarrow> g + s \<le> 1 \<Longrightarrow> voxel_added g s = s"
  by (simp add: voxel_added_def Let_def)

lemma voxel_added_clamped:
  "1 < g + s \<Longrightarrow> voxel_added g s = min (1 - g) s"
  by (simp add: voxel_added_def Let_def)

lemma process_structure_Inr:
  assumes "process_structure wl S st = Inr st'"
  shows "length (geometrical_volume S) = length (global_volume_fractions st)"
    and "global_volume_fractions st' =
           masked_add (global_volume_fractions st)
             (fraction_mask (global_volume_fractions st) (geometrical_volume S))
             (added_volume_fraction (global_volume_fractions st) (geometrical_volume S))"
    and "process_keys (fraction_mask (global_volume_fractions st) (geometrical_volume S))
           (added_volume_fraction (global_volume_fractions st) (geometrical_volume S))
           (properties_for_wavelength S wl) (volumes st) (max_added_fractions st)
         = Inr (volumes st', max_added_fractions st')"
  using assms
  by (auto simp: process_structure_def Let_def split: if_splits sum.splits)

text \<open>The cumulative occupancy of one voxel after a structure with occupancy \<open>s\<close> there.\<close>

lemma global_fraction_step:
  assumes "process_structure wl S st = Inr st'"
    and "v < length (global_volume_fractions st)"
  shows "global_volume_fractions st' ! v =
           (if 0 < geometrical_volume S ! v \<and> global_volume_fractions st ! v < 1
            then global_volume_fractions st ! v
                 + voxel_added (global_volume_fractions st ! v) (geometrical_volume S ! v)
            else global_volume_fractions st ! v)"
proof -
  note r = process_structure_Inr [OF assms(1)]
  show ?thesis
    using assms(2) r(1)
    by (simp add: r(2) nth_masked_add length_fraction_mask length_added_volume_fraction
        nth_fraction_mask nth_added_volume_fraction)
qed

lemma length_global_fraction_step:
  assumes "process_structure wl S st = Inr st'"
  shows "length (global_volume_fractions st') = length (global_volume_fractions st)"
  using process_structure_Inr [OF assms]
  by (simp add: length_masked_add length_fraction_mask length_added_volume_fraction)

section \<open>The fraction compositor\<close>

text \<open>
  C2: at a voxel where the structure is active (its occupancy is positive and the cumulative
  occupancy is below 1), the newly claimed fraction, which line 107 adds to the cumulative
  occupancy, is the structure's occupancy when the sum of the two is at most 1, and the
  minimum of the remaining room and the structure's occupancy when the sum exceeds 1.
\<close>

theorem newly_claimed_fraction:
  assumes "process_structure wl S st = Inr st'"
    and "v < length (global_volume_fractions st)"
    and "0 < geometrical_volume S ! v"
    and "global_volume_fractions st ! v < 1"
  shows "(global_volume_fractions st ! v + geometrical_volume S ! v \<le> 1 \<longrightarrow>
            added_volume_fraction (global_volume_fractions st) (geometrical_volume S) ! v
              = geometrical_volume S ! v \<and>
            global_volume_fractions st' ! v
              = global_volume_fractions st ! v + geometrical_volume S ! v) \<and>
         (1 < global_volume_fractions st ! v + geometrical_volume S ! v \<longrightarrow>
            added_volume_fraction (global_volume_fractions st) (geometrical_volume S) ! v
              = min (1 - global_volume_fractions st ! v) (geometrical_volume S ! v) \<and>
            global_volume_fractions st' ! v
              = global_volume_fractions st ! v
                + min (1 - global_volume_fractions st ! v) (geometrical_volume S ! v))"
proof -
  have len: "length (geometrical_volume S) = length (global_volume_fractions st)"
    by (rule process_structure_Inr(1) [OF assms(1)])
  have a: "added_volume_fraction (global_volume_fractions st) (geometrical_volume S) ! v
             = voxel_added (global_volume_fractions st ! v) (geometrical_volume S ! v)"
    by (rule nth_added_volume_fraction [OF len assms(2)])
  have g: "global_volume_fractions st' ! v
             = global_volume_fractions st ! v
               + voxel_added (global_volume_fractions st ! v) (geometrical_volume S ! v)"
    using global_fraction_step [OF assms(1,2)] assms(3,4) by simp
  show ?thesis
    using assms(3,4) by (simp add: a g voxel_added_fits voxel_added_clamped)
qed

theorem newly_claimed_fraction_witness:
  "process_structure 800
     \<lparr>geometrical_volume = [3/5, 1/5], properties_for_wavelength = (\<lambda>wl key. NoneValue)\<rparr>
     \<lparr>volumes = [(''mua'', [7, 7])], global_volume_fractions = [3/5, 1/2],
      max_added_fractions = [3/5, 1/2]\<rparr>
   = Inr \<lparr>volumes = [(''mua'', [7, 7])], global_volume_fractions = [1, 7/10],
          max_added_fractions = [3/5, 1/2]\<rparr> \<and>
   added_volume_fraction [3/5, 1/2] [3/5, 1/5] ! 0 = min (1 - 3/5) (3/5) \<and>
   added_volume_fraction [3/5, 1/2] [3/5, 1/5] ! 1 = 1/5"
proof -
  let ?S = "\<lparr>geometrical_volume = [3/5, 1/5::real],
             properties_for_wavelength = (\<lambda>wl key. NoneValue)\<rparr>"
  let ?st = "\<lparr>volumes = [(''mua'', [7, 7::real])], global_volume_fractions = [3/5, 1/2],
              max_added_fractions = [3/5, 1/2]\<rparr>"
  let ?st' = "\<lparr>volumes = [(''mua'', [7, 7::real])], global_volume_fractions = [1, 7/10],
              max_added_fractions = [3/5, 1/2]\<rparr>"
  have run: "process_structure 800 ?S ?st = Inr ?st'"
    by (simp add: process_structure_def Let_def fraction_mask_def tensor_and_def
        added_volume_fraction_def masked_assign_def masked_add_def tensor_any_def
        update_volume_def)
  from newly_claimed_fraction [OF run, of 0] newly_claimed_fraction [OF run, of 1] run
  show ?thesis by simp
qed

section \<open>The consistency check\<close>

text \<open>
  An entry selected by \<open>global_volume_fractions > 1\<close> has an absolute value above 1, so
  the test \<open>< 1e-5\<close> of line 109 fails for it: the check raises for no tensor at all.
\<close>

lemma fractions_invalid_never: "\<not> fractions_invalid gvf"
  by (auto simp: fractions_invalid_def tensor_any_def list_ex_iff)

text \<open>
  C1: a cumulative occupancy that exceeds 1 by more than the tolerance \<open>1e-5\<close> makes the
  method raise the consistency error instead of returning the volumes. The check of lines
  109 to 111 does not do so: handed a field with the entry 2, it returns the volumes.
\<close>

theorem validator_misses_overshoot:
  "validate_and_return
     \<lparr>volumes = [(''mua'', [3])], global_volume_fractions = [2], max_added_fractions = [1]\<rparr>
   = Inr [(''mua'', [3])]"
  by (simp add: validate_and_return_def fractions_invalid_def tensor_any_def)

section \<open>The key loop\<close>

lemma update_volume_None [simp]:
  "update_volume msk added key NoneValue (vol, maxf) = Inr (vol, maxf)"
  by (simp add: update_volume_def)

lemma update_volume_length:
  assumes "update_volume msk added key p (vol, maxf) = Inr (vol', maxf')"
    and "length msk = n" "length added = n" "length vol = n" "length maxf = n"
  shows "length vol' = n \<and> length maxf' = n"
  using assms
  by (auto simp: update_volume_def Let_def length_masked_fill length_masked_assign
      length_masked_add length_tensor_and split: if_splits property_value.splits)

lemma update_volume_frame:
  assumes "update_volume msk added key p (vol, maxf) = Inr (vol', maxf')"
    and "length msk = n" "length added = n" "length vol = n" "length maxf = n"
    and "v < n" "\<not> msk ! v"
  shows "vol' ! v = vol ! v \<and> maxf' ! v = maxf ! v"
  using assms
  by (auto simp: update_volume_def Let_def nth_masked_fill nth_masked_assign
      nth_masked_add nth_tensor_and length_tensor_and split: if_splits property_value.splits)

lemma update_volume_other_key:
  assumes "update_volume msk added key p (vol, maxf) = Inr (vol', maxf')"
    and "key \<noteq> DATA_FIELD_SEGMENTATION"
  shows "maxf' = maxf"
  using assms
  by (auto simp: update_volume_def split: if_splits property_value.splits)

lemma process_keys_rel:
  assumes "process_keys msk added props vols maxf = Inr (vols', maxf')"
    and "I maxf"
    and "\<And>k f m f' m'. (k, f) \<in> set vols \<Longrightarrow> I m
           \<Longrightarrow> update_volume msk added k (props k) (f, m) = Inr (f', m')
           \<Longrightarrow> R k f f' \<and> I m'"
  shows "list_all2 (\<lambda>kf kf'. fst kf' = fst kf \<and> R (fst kf) (snd kf) (snd kf')) vols vols'
         \<and> I maxf'"
  using assms
proof (induction vols arbitrary: maxf vols')
  case Nil
  then show ?case by simp
next
  case (Cons kf rest)
  obtain k f where kf: "kf = (k, f)" by (cases kf)
  from Cons.prems(1) obtain f1 m1 where
    u: "update_volume msk added k (props k) (f, maxf) = Inr (f1, m1)"
    by (auto simp: kf split: sum.splits)
  with Cons.prems(1) obtain rest' where
    r: "process_keys msk added props rest m1 = Inr (rest', maxf')"
    and v: "vols' = (k, f1) # rest'"
    by (auto simp: kf split: sum.splits)
  have h: "R k f f1 \<and> I m1"
    using Cons.prems(3) [of k f maxf f1 m1] Cons.prems(2) u by (simp add: kf)
  have "list_all2 (\<lambda>kf kf'. fst kf' = fst kf \<and> R (fst kf) (snd kf) (snd kf')) rest rest'
        \<and> I maxf'"
  proof (rule Cons.IH [OF r])
    show "I m1" using h by simp
  next
    fix k' f' m f'' m'
    assume "(k', f') \<in> set rest" "I m"
      "update_volume msk added k' (props k') (f', m) = Inr (f'', m')"
    then show "R k' f' f'' \<and> I m'"
      using Cons.prems(3) [of k' f' m f'' m'] by simp
  qed
  then show ?case using h by (simp add: kf v)
qed

lemma rel_map_of:
  assumes "list_all2 (\<lambda>kf kf'. fst kf' = fst kf \<and> R (fst kf) (snd kf) (snd kf')) vols vols'"
  shows "(map_of vols' K = None \<longleftrightarrow> map_of vols K = None) \<and>
         (\<forall>f f'. map_of vols K = Some f \<longrightarrow> map_of vols' K = Some f' \<longrightarrow> R K f f')"
  using assms
  by (induction vols vols' rule: list_all2_induct) auto

lemma rel_keys:
  assumes "list_all2 (\<lambda>kf kf'. fst kf' = fst kf \<and> R (fst kf) (snd kf) (snd kf')) vols vols'"
  shows "map fst vols' = map fst vols"
  using assms
  by (induction vols vols' rule: list_all2_induct) auto

lemma process_keys_keys:
  assumes "process_keys msk added props vols maxf = Inr (vols', maxf')"
  shows "map fst vols' = map fst vols"
proof -
  have "list_all2 (\<lambda>kf kf'. fst kf' = fst kf \<and> True) vols vols' \<and> True"
    by (rule process_keys_rel [OF assms, where I = "\<lambda>m. True" and R = "\<lambda>k f f'. True"]) simp_all
  then show ?thesis using rel_keys [where R = "\<lambda>k f f'. True"] by simp
qed

lemma rel_all:
  assumes "list_all2 (\<lambda>kf kf'. fst kf' = fst kf \<and> P (snd kf')) vols vols'"
  shows "list_all (\<lambda>(k, f). P f) vols'"
  using assms
  by (induction vols vols' rule: list_all2_induct) auto

lemma process_keys_shape:
  assumes run: "process_keys msk added props vols maxf = Inr (vols', maxf')"
    and len: "length msk = n" "length added = n" "length maxf = n"
    and vols: "list_all (\<lambda>(k, f). length f = n) vols"
  shows "list_all (\<lambda>(k, f). length f = n) vols' \<and> length maxf' = n"
proof -
  have rel: "list_all2 (\<lambda>kf kf'. fst kf' = fst kf \<and> length (snd kf') = n) vols vols'
             \<and> length maxf' = n"
  proof (rule process_keys_rel [OF run, where I = "\<lambda>m. length m = n"
        and R = "\<lambda>k f f'. length f' = n"])
    show "length maxf = n" by (rule len(3))
  next
    fix k f m f' m'
    assume "(k, f) \<in> set vols" "length m = n"
      "update_volume msk added k (props k) (f, m) = Inr (f', m')"
    moreover from \<open>(k, f) \<in> set vols\<close> vols have "length f = n"
      by (auto simp: list_all_iff)
    ultimately show "length f' = n \<and> length m' = n"
      using update_volume_length [of msk added k "props k" f m f' m' n] len by simp
  qed
  then show ?thesis
    using rel_all [where P = "\<lambda>f. length f = n"] by blast
qed

lemma process_keys_frame:
  assumes run: "process_keys msk added props vols maxf = Inr (vols', maxf')"
    and len: "length msk = n" "length added = n" "length maxf = n"
    and vols: "list_all (\<lambda>(k, f). length f = n) vols"
    and v: "v < n" "\<not> msk ! v"
  shows "maxf' ! v = maxf ! v \<and> field_at vols' K v = field_at vols K v"
proof -
  have rel: "list_all2 (\<lambda>kf kf'. fst kf' = fst kf \<and> snd kf' ! v = snd kf ! v) vols vols'
             \<and> (length maxf' = n \<and> maxf' ! v = maxf ! v)"
  proof (rule process_keys_rel [OF run, where I = "\<lambda>m. length m = n \<and> m ! v = maxf ! v"
        and R = "\<lambda>k f f'. f' ! v = f ! v"])
    show "length maxf = n \<and> maxf ! v = maxf ! v" by (simp add: len(3))
  next
    fix k f m f' m'
    assume a: "(k, f) \<in> set vols" "length m = n \<and> m ! v = maxf ! v"
      "update_volume msk added k (props k) (f, m) = Inr (f', m')"
    from a(1) vols have lf: "length f = n"
      by (auto simp: list_all_iff)
    from update_volume_frame [OF a(3) len(1,2) lf _ v] a(2)
      update_volume_length [OF a(3) len(1,2) lf]
    show "f' ! v = f ! v \<and> length m' = n \<and> m' ! v = maxf ! v" by simp
  qed
  from rel_map_of [where R = "\<lambda>k f f'. f' ! v = f ! v" and K = K] rel
  have m: "(map_of vols' K = None \<longleftrightarrow> map_of vols K = None) \<and>
      (\<forall>f f'. map_of vols K = Some f \<longrightarrow> map_of vols' K = Some f' \<longrightarrow> f' ! v = f ! v)"
    by blast
  have "field_at vols' K v = field_at vols K v"
  proof (cases "map_of vols K")
    case None
    with m show ?thesis by (simp add: field_at_def)
  next
    case (Some f)
    with m obtain f' where "map_of vols' K = Some f'" by (cases "map_of vols' K") auto
    with m Some show ?thesis by (simp add: field_at_def)
  qed
  with rel show ?thesis by simp
qed

lemma process_keys_absent:
  assumes run: "process_keys msk added props vols maxf = Inr (vols', maxf')"
    and absent: "props K = NoneValue"
  shows "map_of vols' K = map_of vols K"
proof -
  have rel: "list_all2 (\<lambda>kf kf'. fst kf' = fst kf \<and> (fst kf = K \<longrightarrow> snd kf' = snd kf))
               vols vols' \<and> True"
  proof (rule process_keys_rel [OF run, where I = "\<lambda>m. True"
        and R = "\<lambda>k f f'. k = K \<longrightarrow> f' = f"])
    fix k f m f' m'
    assume "update_volume msk added k (props k) (f, m) = Inr (f', m')"
    then show "(k = K \<longrightarrow> f' = f) \<and> True"
      using absent by auto
  qed simp
  from rel_map_of [where R = "\<lambda>k f f'. k = K \<longrightarrow> f' = f" and K = K] rel
  have m: "(map_of vols' K = None \<longleftrightarrow> map_of vols K = None) \<and>
      (\<forall>f f'. map_of vols K = Some f \<longrightarrow> map_of vols' K = Some f' \<longrightarrow> f' = f)"
    by blast
  show ?thesis
  proof (cases "map_of vols K")
    case None
    with m show ?thesis by simp
  next
    case (Some f)
    with m obtain f' where "map_of vols' K = Some f'" by (cases "map_of vols' K") auto
    with m Some show ?thesis by simp
  qed
qed

section \<open>One structure\<close>

lemma process_structure_shaped:
  assumes run: "process_structure wl S st = Inr st'" and sh: "state_shaped n st"
  shows "state_shaped n st'"
proof -
  note r = process_structure_Inr [OF run]
  from sh have g: "length (global_volume_fractions st) = n"
    and m: "length (max_added_fractions st) = n"
    and vs: "list_all (\<lambda>(k, f). length f = n) (volumes st)"
    and d: "distinct (map fst (volumes st))"
    by (simp_all add: state_shaped_def)
  from r(1) g have s: "length (geometrical_volume S) = length (global_volume_fractions st)"
    by simp
  have lm: "length (fraction_mask (global_volume_fractions st) (geometrical_volume S)) = n"
    using length_fraction_mask [OF s] g by simp
  have la: "length (added_volume_fraction (global_volume_fractions st) (geometrical_volume S)) = n"
    using length_added_volume_fraction [OF s] g by simp
  from process_keys_shape [OF r(3) lm la m vs] process_keys_keys [OF r(3)] d
    length_global_fraction_step [OF run] g
  show ?thesis by (simp add: state_shaped_def)
qed

lemma process_structure_frame:
  assumes run: "process_structure wl S st = Inr st'" and sh: "state_shaped n st"
    and v: "v < n"
    and inactive: "\<not> (0 < geometrical_volume S ! v \<and> global_volume_fractions st ! v < 1)"
  shows "global_volume_fractions st' ! v = global_volume_fractions st ! v
         \<and> max_added_fractions st' ! v = max_added_fractions st ! v
         \<and> field_at (volumes st') K v = field_at (volumes st) K v"
proof -
  note r = process_structure_Inr [OF run]
  from sh have g: "length (global_volume_fractions st) = n"
    and m: "length (max_added_fractions st) = n"
    and vs: "list_all (\<lambda>(k, f). length f = n) (volumes st)"
    by (simp_all add: state_shaped_def)
  from r(1) g have s: "length (geometrical_volume S) = length (global_volume_fractions st)"
    by simp
  have lm: "length (fraction_mask (global_volume_fractions st) (geometrical_volume S)) = n"
    using length_fraction_mask [OF s] g by simp
  have la: "length (added_volume_fraction (global_volume_fractions st) (geometrical_volume S)) = n"
    using length_added_volume_fraction [OF s] g by simp
  have nm: "\<not> fraction_mask (global_volume_fractions st) (geometrical_volume S) ! v"
    using nth_fraction_mask [OF s, of v] v g inactive by simp
  have "global_volume_fractions st' ! v = global_volume_fractions st ! v"
    using global_fraction_step [OF run, of v] v g inactive by simp
  with process_keys_frame [OF r(3) lm la m vs v nm, of K]
  show ?thesis by simp
qed

lemma process_structure_absent:
  assumes "process_structure wl S st = Inr st'"
    and "properties_for_wavelength S wl K = NoneValue"
  shows "map_of (volumes st') K = map_of (volumes st) K"
  using process_keys_absent [OF process_structure_Inr(3) [OF assms(1)] assms(2)] .

section \<open>The loop over the structures\<close>

lemma process_structures_append:
  "process_structures wl (xs @ ys) st =
     (case process_structures wl xs st of
        Inl e \<Rightarrow> Inl e
      | Inr st' \<Rightarrow> process_structures wl ys st')"
  by (induction xs arbitrary: st) (auto split: sum.splits)

lemma process_structures_shaped:
  assumes "process_structures wl Ss st = Inr st'" and "state_shaped n st"
  shows "state_shaped n st'"
  using assms
proof (induction Ss arbitrary: st)
  case Nil
  then show ?case by simp
next
  case (Cons S Ss)
  from Cons.prems(1) obtain st1 where
    s1: "process_structure wl S st = Inr st1" and r: "process_structures wl Ss st1 = Inr st'"
    by (auto split: sum.splits)
  from process_structure_shaped [OF s1 Cons.prems(2)] Cons.IH [OF r] show ?case by simp
qed

lemma process_structures_frame:
  assumes "process_structures wl Ss st = Inr st'" and "state_shaped n st" and "v < n"
    and "\<forall>S \<in> set Ss. \<not> (0 < geometrical_volume S ! v \<and> global_volume_fractions st ! v < 1)"
  shows "global_volume_fractions st' ! v = global_volume_fractions st ! v
         \<and> max_added_fractions st' ! v = max_added_fractions st ! v
         \<and> field_at (volumes st') K v = field_at (volumes st) K v"
  using assms
proof (induction Ss arbitrary: st)
  case Nil
  then show ?case by simp
next
  case (Cons S Ss)
  from Cons.prems(1) obtain st1 where
    s1: "process_structure wl S st = Inr st1" and r: "process_structures wl Ss st1 = Inr st'"
    by (auto split: sum.splits)
  have inact: "\<not> (0 < geometrical_volume S ! v \<and> global_volume_fractions st ! v < 1)"
    using Cons.prems(4) by simp
  note f = process_structure_frame [OF s1 Cons.prems(2,3) inact, of K]
  have sh1: "state_shaped n st1"
    by (rule process_structure_shaped [OF s1 Cons.prems(2)])
  have "\<forall>S \<in> set Ss. \<not> (0 < geometrical_volume S ! v \<and> global_volume_fractions st1 ! v < 1)"
    using Cons.prems(4) f by simp
  from Cons.IH [OF r sh1 Cons.prems(3) this] f show ?case by simp
qed

section \<open>The whole pass\<close>

lemma composite_structures_Inr:
  assumes "composite_structures cfg Ss = Inr st"
  shows "process_structures (wavelength cfg) Ss (initial_state cfg) = Inr st"
  using assms
  by (auto simp: composite_structures_def create_empty_volumes_def initial_state_def
      voxel_count_def split: prod.splits if_splits)

lemma initial_state_shaped: "state_shaped (voxel_count cfg) (initial_state cfg)"
  by (simp add: state_shaped_def initial_state_def list_all_iff distinct_map inj_on_def)

lemma initial_state_field:
  "v < voxel_count cfg \<Longrightarrow>
   field_at (volumes (initial_state cfg)) K v
     = (if K \<in> set (volume_keys cfg) then Some 0 else None)"
  by (auto simp: field_at_def initial_state_def map_of_map_restrict restrict_map_def)

lemma initial_state_bookkeeping:
  "v < voxel_count cfg \<Longrightarrow>
   global_volume_fractions (initial_state cfg) ! v = 0
   \<and> max_added_fractions (initial_state cfg) ! v = 0"
  by (simp add: initial_state_def)

lemma composite_structures_shaped:
  assumes "composite_structures cfg Ss = Inr st"
  shows "state_shaped (voxel_count cfg) st"
  using process_structures_shaped [OF composite_structures_Inr [OF assms] initial_state_shaped] .

lemma composite_structures_append:
  assumes "composite_structures cfg pre = Inr st1"
  shows "composite_structures cfg (pre @ rest) = process_structures (wavelength cfg) rest st1"
proof -
  from assms have ok: "create_empty_volumes cfg \<noteq> Inl AllocationError"
    by (auto simp: composite_structures_def split: sum.splits)
  have "\<And>Ss. composite_structures cfg Ss
          = process_structures (wavelength cfg) Ss (initial_state cfg)"
    using ok
    by (auto simp: composite_structures_def create_empty_volumes_def initial_state_def
      voxel_count_def split: prod.splits if_splits)
  then show ?thesis
    using assms by (simp add: process_structures_append)
qed

lemma create_simulation_volume_composite:
  "create_simulation_volume cfg Ss = map_sum id volumes (composite_structures cfg Ss)"
  by (simp add: create_simulation_volume_def validate_and_return_def fractions_invalid_never
      split: sum.splits)

section \<open>Evaluation on concrete inputs\<close>

lemmas evaluation =
  example_settings_def example_structure_def composite_structures_def
  create_empty_volumes_def process_structure_def Let_def fraction_mask_def tensor_and_def
  added_volume_fraction_def masked_assign_def masked_add_def masked_fill_def tensor_any_def
  update_volume_def DATA_FIELD_SEGMENTATION_def voxel_count_def numeral_2_eq_2

lemma example_run:
  "composite_structures example_settings
     [example_structure [3/10, 0] (NumberValue 2) (NumberValue 1),
      example_structure [1/2, 0] (NumberValue 4) (NumberValue 2)]
   = Inr \<lparr>volumes = [(''mua'', [13/5, 0]), (''seg'', [2, 0])],
          global_volume_fractions = [4/5, 0], max_added_fractions = [1/2, 0]\<rparr>"
  by (simp add: evaluation)

section \<open>Bounds, absent properties and unoccupied voxels\<close>

lemma voxel_added_bounds:
  assumes "0 < s" and "g < 1"
  shows "0 < voxel_added g s \<and> g + voxel_added g s \<le> 1"
  using assms by (auto simp: voxel_added_def Let_def min_def)

lemma process_structure_bounded:
  assumes run: "process_structure wl S st = Inr st'"
    and v: "v < length (global_volume_fractions st)"
    and b: "0 \<le> global_volume_fractions st ! v \<and> global_volume_fractions st ! v \<le> 1"
  shows "0 \<le> global_volume_fractions st' ! v \<and> global_volume_fractions st' ! v \<le> 1"
proof (cases "0 < geometrical_volume S ! v \<and> global_volume_fractions st ! v < 1")
  case True
  with voxel_added_bounds [of "geometrical_volume S ! v" "global_volume_fractions st ! v"]
    global_fraction_step [OF run v] b
  show ?thesis by simp
next
  case False
  with global_fraction_step [OF run v] b show ?thesis by simp
qed

lemma process_structures_bounded:
  assumes "process_structures wl Ss st = Inr st'"
    and "v < length (global_volume_fractions st)"
    and "0 \<le> global_volume_fractions st ! v \<and> global_volume_fractions st ! v \<le> 1"
  shows "0 \<le> global_volume_fractions st' ! v \<and> global_volume_fractions st' ! v \<le> 1"
  using assms
proof (induction Ss arbitrary: st)
  case Nil
  then show ?case by simp
next
  case (Cons S Ss)
  from Cons.prems(1) obtain st1 where
    s1: "process_structure wl S st = Inr st1" and r: "process_structures wl Ss st1 = Inr st'"
    by (auto split: sum.splits)
  have "v < length (global_volume_fractions st1)"
    using length_global_fraction_step [OF s1] Cons.prems(2) by simp
  from Cons.IH [OF r this process_structure_bounded [OF s1 Cons.prems(2,3)]]
  show ?case .
qed

text \<open>
  C5: after each structure of the pass, that is after every initial segment of the
  sequence, the cumulative occupancy of every voxel lies between 0 and 1. The bound comes
  from the clamp and holds whatever occupancies the structures carry.
\<close>

theorem cumulative_occupancy_bounded:
  assumes "composite_structures cfg (take k structures) = Inr st"
    and "v < voxel_count cfg"
  shows "0 \<le> global_volume_fractions st ! v \<and> global_volume_fractions st ! v \<le> 1"
proof -
  have "v < length (global_volume_fractions (initial_state cfg))"
    using assms(2) by (simp add: initial_state_def)
  from process_structures_bounded [OF composite_structures_Inr [OF assms(1)] this]
    initial_state_bookkeeping [OF assms(2)]
  show ?thesis by simp
qed

theorem cumulative_occupancy_bounded_witness:
  "composite_structures example_settings
     (take 2 [example_structure [3/5, 0] (NumberValue 2) (NumberValue 1),
              example_structure [3/5, 0] (NumberValue 4) (NumberValue 2),
              example_structure [3/5, 1] (NumberValue 4) (NumberValue 2)])
   = Inr \<lparr>volumes = [(''mua'', [14/5, 0]), (''seg'', [1, 0])],
          global_volume_fractions = [1, 0], max_added_fractions = [3/5, 0]\<rparr>
   \<and> (0::nat) < voxel_count example_settings
   \<and> (0::real) \<le> [1, 0] ! 0 \<and> [1, 0::real] ! 0 \<le> 1"
proof -
  let ?Ss = "[example_structure [3/5, 0] (NumberValue 2) (NumberValue 1),
              example_structure [3/5, 0] (NumberValue 4) (NumberValue 2),
              example_structure [3/5, 1] (NumberValue 4) (NumberValue 2)]"
  have run: "composite_structures example_settings (take 2 ?Ss)
     = Inr \<lparr>volumes = [(''mua'', [14/5, 0]), (''seg'', [1, 0])],
          global_volume_fractions = [1, 0], max_added_fractions = [3/5, 0]\<rparr>"
    by (simp add: evaluation)
  have v: "(0::nat) < voxel_count example_settings"
    by (simp add: evaluation)
  from cumulative_occupancy_bounded [OF run v] run v show ?thesis by simp
qed

text \<open>
  C7: a structure whose lookup returns \<open>None\<close> for a key leaves the whole field stored
  under that key as it was, also at the voxels the structure claims.
\<close>

theorem absent_property_no_update:
  assumes "process_structure wl S st = Inr st'"
    and "properties_for_wavelength S wl K = NoneValue"
  shows "map_of (volumes st') K = map_of (volumes st) K"
  using assms by (rule process_structure_absent)

theorem absent_property_no_update_witness:
  "process_structure 800 (example_structure [1/2, 0] NoneValue (NumberValue 3))
     \<lparr>volumes = [(''mua'', [7, 7]), (''seg'', [0, 0])],
      global_volume_fractions = [0, 0], max_added_fractions = [0, 0]\<rparr>
   = Inr \<lparr>volumes = [(''mua'', [7, 7]), (''seg'', [3, 0])],
          global_volume_fractions = [1/2, 0], max_added_fractions = [1/2, 0]\<rparr>
   \<and> properties_for_wavelength (example_structure [1/2, 0] NoneValue (NumberValue 3)) 800 ''mua''
       = NoneValue
   \<and> map_of [(''mua'', [7, 7::real]), (''seg'', [3, 0])] ''mua''
       = map_of [(''mua'', [7, 7]), (''seg'', [0, 0])] ''mua''"
proof -
  let ?S = "example_structure [1/2, 0] NoneValue (NumberValue 3)"
  have run: "process_structure 800 ?S
     \<lparr>volumes = [(''mua'', [7, 7]), (''seg'', [0, 0])],
      global_volume_fractions = [0, 0], max_added_fractions = [0, 0]\<rparr>
   = Inr \<lparr>volumes = [(''mua'', [7, 7]), (''seg'', [3, 0])],
          global_volume_fractions = [1/2, 0], max_added_fractions = [1/2, 0]\<rparr>"
    by (simp add: evaluation)
  have none: "properties_for_wavelength ?S 800 ''mua'' = NoneValue"
    by (simp add: example_structure_def)
  from absent_property_no_update [OF run none] run none show ?thesis by simp
qed

text \<open>
  C10: at a voxel where every structure of the sequence has occupancy 0, nothing is ever
  written: in the returned volumes every field still holds the 0 of its allocation there,
  and so do the cumulative occupancy and the maximum applied fraction.
\<close>

theorem unoccupied_voxel_untouched:
  assumes "composite_structures cfg structures = Inr st"
    and "v < voxel_count cfg"
    and "\<forall>S \<in> set structures. geometrical_volume S ! v = 0"
  shows "create_simulation_volume cfg structures = Inr (volumes st)
         \<and> (\<forall>K \<in> set (volume_keys cfg). field_at (volumes st) K v = Some 0)
         \<and> global_volume_fractions st ! v = 0
         \<and> max_added_fractions st ! v = 0"
proof -
  have inact: "\<forall>S \<in> set structures.
      \<not> (0 < geometrical_volume S ! v \<and> global_volume_fractions (initial_state cfg) ! v < 1)"
    using assms(3) by simp
  note f = process_structures_frame [OF composite_structures_Inr [OF assms(1)]
      initial_state_shaped assms(2) inact]
  have "create_simulation_volume cfg structures = Inr (volumes st)"
    by (simp add: create_simulation_volume_composite assms(1))
  then show ?thesis
    using f initial_state_field [OF assms(2)] initial_state_bookkeeping [OF assms(2)]
    by simp
qed

theorem unoccupied_voxel_untouched_witness:
  "composite_structures example_settings
     [example_structure [3/10, 0] (NumberValue 2) (NumberValue 1),
      example_structure [1/2, 0] (NumberValue 4) (NumberValue 2)]
   = Inr \<lparr>volumes = [(''mua'', [13/5, 0]), (''seg'', [2, 0])],
          global_volume_fractions = [4/5, 0], max_added_fractions = [1/2, 0]\<rparr>
   \<and> create_simulation_volume example_settings
     [example_structure [3/10, 0] (NumberValue 2) (NumberValue 1),
      example_structure [1/2, 0] (NumberValue 4) (NumberValue 2)]
   = Inr [(''mua'', [13/5, 0]), (''seg'', [2, 0])]
   \<and> field_at [(''mua'', [13/5, 0]), (''seg'', [2, 0])] ''mua'' 1 = Some 0
   \<and> field_at [(''mua'', [13/5, 0]), (''seg'', [2, 0])] ''seg'' 1 = Some 0"
proof -
  let ?Ss = "[example_structure [3/10, 0] (NumberValue 2) (NumberValue 1),
      example_structure [1/2, 0] (NumberValue 4) (NumberValue 2)]"
  have v: "(1::nat) < voxel_count example_settings"
    by (simp add: evaluation)
  have z: "\<forall>S \<in> set ?Ss. geometrical_volume S ! 1 = 0"
    by (simp add: example_structure_def)
  from unoccupied_voxel_untouched [OF example_run v z] example_run
  show ?thesis by (simp add: example_settings_def)
qed

section \<open>The segmentation field\<close>

lemma process_keys_max_unchanged:
  assumes run: "process_keys msk added props vols maxf = Inr (vols', maxf')"
    and seg: "DATA_FIELD_SEGMENTATION \<notin> fst ` set vols
              \<or> props DATA_FIELD_SEGMENTATION = NoneValue"
  shows "maxf' = maxf"
proof -
  have "list_all2 (\<lambda>kf kf'. fst kf' = fst kf \<and> True) vols vols' \<and> maxf' = maxf"
  proof (rule process_keys_rel [OF run, where I = "\<lambda>m. m = maxf" and R = "\<lambda>k f f'. True"])
    fix k f m f' m'
    assume a: "(k, f) \<in> set vols" "m = maxf"
      "update_volume msk added k (props k) (f, m) = Inr (f', m')"
    show "True \<and> m' = maxf"
    proof (cases "k = DATA_FIELD_SEGMENTATION")
      case True
      with a(1) seg have "props k = NoneValue" by force
      with a(2,3) show ?thesis by simp
    next
      case False
      from update_volume_other_key [OF a(3) False] a(2) show ?thesis by simp
    qed
  qed simp
  then show ?thesis by simp
qed

lemma update_volume_segmentation:
  "update_volume msk added DATA_FIELD_SEGMENTATION (NumberValue c) (vol, maxf)
     = Inr (masked_fill vol (tensor_and (map (\<lambda>(a, m). m < a) (zip added maxf)) msk) c,
            masked_assign maxf (tensor_and (map (\<lambda>(a, m). m < a) (zip added maxf)) msk) added)"
  by (simp add: update_volume_def Let_def)

lemma process_keys_segmentation:
  assumes "process_keys msk added props vols maxf = Inr (vols', maxf')"
    and "distinct (map fst vols)"
    and "props DATA_FIELD_SEGMENTATION = NumberValue c"
    and "map_of vols DATA_FIELD_SEGMENTATION = Some f"
  shows "map_of vols' DATA_FIELD_SEGMENTATION
           = Some (masked_fill f (tensor_and (map (\<lambda>(a, m). m < a) (zip added maxf)) msk) c)
         \<and> maxf' = masked_assign maxf
                      (tensor_and (map (\<lambda>(a, m). m < a) (zip added maxf)) msk) added"
  using assms
proof (induction vols arbitrary: maxf vols')
  case Nil
  then show ?case by simp
next
  case (Cons kf rest)
  obtain k f0 where kf: "kf = (k, f0)" by (cases kf)
  from Cons.prems(1) obtain f1 m1 where
    u: "update_volume msk added k (props k) (f0, maxf) = Inr (f1, m1)"
    by (auto simp: kf split: sum.splits)
  with Cons.prems(1) obtain rest' where
    r: "process_keys msk added props rest m1 = Inr (rest', maxf')"
    and v: "vols' = (k, f1) # rest'"
    by (auto simp: kf split: sum.splits)
  show ?case
  proof (cases "k = DATA_FIELD_SEGMENTATION")
    case True
    with Cons.prems(4) have f0: "f0 = f" by (simp add: kf)
    from Cons.prems(2) True have "DATA_FIELD_SEGMENTATION \<notin> fst ` set rest"
      by (simp add: kf)
    with process_keys_max_unchanged [OF r] have "maxf' = m1" by simp
    with u True Cons.prems(3) f0 v show ?thesis
      by (simp add: update_volume_segmentation)
  next
    case False
    from update_volume_other_key [OF u False] have m1: "m1 = maxf" .
    from Cons.prems(2) have d: "distinct (map fst rest)" by simp
    from Cons.prems(4) False have mo: "map_of rest DATA_FIELD_SEGMENTATION = Some f"
      by (simp add: kf)
    from Cons.IH [OF r [unfolded m1] d Cons.prems(3) mo] False v
    show ?thesis by simp
  qed
qed

text \<open>
  What one structure does to the segmentation field and to the maximum applied fraction at
  one voxel, when it carries a label and when it carries none.
\<close>

lemma process_structure_segmentation:
  assumes run: "process_structure wl S st = Inr st'" and sh: "state_shaped n st"
    and v: "v < n"
    and tracked: "map_of (volumes st) DATA_FIELD_SEGMENTATION = Some f"
    and label: "properties_for_wavelength S wl DATA_FIELD_SEGMENTATION = NumberValue c"
  shows "field_at (volumes st') DATA_FIELD_SEGMENTATION v
           = Some (if 0 < geometrical_volume S ! v \<and> global_volume_fractions st ! v < 1
                      \<and> max_added_fractions st ! v
                          < voxel_added (global_volume_fractions st ! v) (geometrical_volume S ! v)
                   then c else f ! v)
         \<and> max_added_fractions st' ! v
           = (if 0 < geometrical_volume S ! v \<and> global_volume_fractions st ! v < 1
                 \<and> max_added_fractions st ! v
                     < voxel_added (global_volume_fractions st ! v) (geometrical_volume S ! v)
              then voxel_added (global_volume_fractions st ! v) (geometrical_volume S ! v)
              else max_added_fractions st ! v)"
proof -
  note r = process_structure_Inr [OF run]
  from sh have g: "length (global_volume_fractions st) = n"
    and m: "length (max_added_fractions st) = n"
    and vs: "list_all (\<lambda>(k, f). length f = n) (volumes st)"
    and d: "distinct (map fst (volumes st))"
    by (simp_all add: state_shaped_def)
  from r(1) g have s: "length (geometrical_volume S) = length (global_volume_fractions st)"
    by simp
  have lm: "length (fraction_mask (global_volume_fractions st) (geometrical_volume S)) = n"
    using length_fraction_mask [OF s] g by simp
  have la: "length (added_volume_fraction (global_volume_fractions st) (geometrical_volume S)) = n"
    using length_added_volume_fraction [OF s] g by simp
  from tracked have "(DATA_FIELD_SEGMENTATION, f) \<in> set (volumes st)"
    by (rule map_of_SomeD)
  with vs have lf: "length f = n" by (auto simp: list_all_iff)
  have nm: "fraction_mask (global_volume_fractions st) (geometrical_volume S) ! v
      = (0 < geometrical_volume S ! v \<and> global_volume_fractions st ! v < 1)"
    using nth_fraction_mask [OF s, of v] v g by simp
  have na: "added_volume_fraction (global_volume_fractions st) (geometrical_volume S) ! v
      = voxel_added (global_volume_fractions st ! v) (geometrical_volume S ! v)"
    using nth_added_volume_fraction [OF s, of v] v g by simp
  note k = process_keys_segmentation [OF r(3) d label tracked]
  show ?thesis
    using v lm la lf m nm na
    by (auto simp: field_at_def k nth_masked_fill nth_masked_assign nth_tensor_and
        length_tensor_and)
qed

lemma process_structure_no_label:
  assumes run: "process_structure wl S st = Inr st'"
    and label: "properties_for_wavelength S wl DATA_FIELD_SEGMENTATION = NoneValue"
  shows "map_of (volumes st') DATA_FIELD_SEGMENTATION
           = map_of (volumes st) DATA_FIELD_SEGMENTATION
         \<and> max_added_fractions st' = max_added_fractions st"
  using process_structure_absent [OF run label]
    process_keys_max_unchanged [OF process_structure_Inr(3) [OF run]] label
  by simp

lemma process_keys_label_kind:
  assumes run: "process_keys msk added props vols maxf = Inr (vols', maxf')"
    and tracked: "map_of vols DATA_FIELD_SEGMENTATION = Some f"
  shows "props DATA_FIELD_SEGMENTATION = NoneValue
         \<or> (\<exists>c. props DATA_FIELD_SEGMENTATION = NumberValue c)"
proof -
  let ?R = "\<lambda>k (f::real list) (f'::real list). k = DATA_FIELD_SEGMENTATION \<longrightarrow>
      (props DATA_FIELD_SEGMENTATION = NoneValue
       \<or> (\<exists>c. props DATA_FIELD_SEGMENTATION = NumberValue c))"
  have rel: "list_all2 (\<lambda>kf kf'. fst kf' = fst kf \<and> ?R (fst kf) (snd kf) (snd kf')) vols vols'
             \<and> True"
  proof (rule process_keys_rel [OF run, where I = "\<lambda>m. True" and R = ?R])
    fix k f m f' m'
    assume "update_volume msk added k (props k) (f, m) = Inr (f', m')"
    then show "?R k f f' \<and> True"
      by (auto simp: update_volume_def Let_def split: if_splits property_value.splits)
  qed simp
  from rel_map_of [where R = ?R and K = DATA_FIELD_SEGMENTATION] rel
  have m: "(map_of vols' DATA_FIELD_SEGMENTATION = None
             \<longleftrightarrow> map_of vols DATA_FIELD_SEGMENTATION = None) \<and>
      (\<forall>f f'. map_of vols DATA_FIELD_SEGMENTATION = Some f \<longrightarrow>
         map_of vols' DATA_FIELD_SEGMENTATION = Some f' \<longrightarrow>
         ?R DATA_FIELD_SEGMENTATION f f')"
    by blast
  with tracked obtain f' where "map_of vols' DATA_FIELD_SEGMENTATION = Some f'"
    by (cases "map_of vols' DATA_FIELD_SEGMENTATION") auto
  with m tracked show ?thesis by blast
qed

text \<open>
  One structure at one voxel, as far as the segmentation is concerned: \<open>g\<close>, \<open>m\<close> and \<open>l\<close>
  are the cumulative occupancy, the maximum applied fraction and the label before, \<open>s\<close>
  the structure's occupancy.
\<close>

lemma segmentation_voxel_step:
  assumes run: "process_structure wl S st = Inr st1" and sh: "state_shaped n st"
    and v: "v < n"
    and tracked: "map_of (volumes st) DATA_FIELD_SEGMENTATION = Some f"
    and g: "g = global_volume_fractions st ! v" and s: "s = geometrical_volume S ! v"
    and m: "m = max_added_fractions st ! v"
  shows "\<exists>f1. map_of (volumes st1) DATA_FIELD_SEGMENTATION = Some f1
          \<and> global_volume_fractions st1 ! v
              = (if 0 < s \<and> g < 1 then g + voxel_added g s else g)
          \<and> ((properties_for_wavelength S wl DATA_FIELD_SEGMENTATION = NoneValue
                \<and> f1 ! v = f ! v \<and> max_added_fractions st1 ! v = m)
              \<or> (\<exists>c. properties_for_wavelength S wl DATA_FIELD_SEGMENTATION = NumberValue c
                  \<and> f1 ! v = (if 0 < s \<and> g < 1 \<and> m < voxel_added g s then c else f ! v)
                  \<and> max_added_fractions st1 ! v
                      = (if 0 < s \<and> g < 1 \<and> m < voxel_added g s
                         then voxel_added g s else m)))"
proof -
  from sh have lg: "length (global_volume_fractions st) = n"
    by (simp add: state_shaped_def)
  have gs: "global_volume_fractions st1 ! v
              = (if 0 < s \<and> g < 1 then g + voxel_added g s else g)"
    using global_fraction_step [OF run, of v] v lg by (simp add: g s)
  from process_keys_label_kind [OF process_structure_Inr(3) [OF run] tracked]
  consider (none) "properties_for_wavelength S wl DATA_FIELD_SEGMENTATION = NoneValue"
    | (number) c where "properties_for_wavelength S wl DATA_FIELD_SEGMENTATION = NumberValue c"
    by blast
  then show ?thesis
  proof cases
    case none
    from process_structure_no_label [OF run none] tracked gs none
    show ?thesis by (simp add: m)
  next
    case number
    from process_structure_segmentation [OF run sh v tracked number]
    obtain f1 where "map_of (volumes st1) DATA_FIELD_SEGMENTATION = Some f1"
      and "f1 ! v = (if 0 < s \<and> g < 1 \<and> m < voxel_added g s then c else f ! v)"
      and "max_added_fractions st1 ! v
             = (if 0 < s \<and> g < 1 \<and> m < voxel_added g s then voxel_added g s else m)"
      by (auto simp: field_at_def g s m)
    with gs number show ?thesis by auto
  qed
qed

text \<open>
  A label survives the rest of the pass when no later structure that carries a label
  claims more than the maximum applied fraction recorded at the voxel.
\<close>

lemma segmentation_stable:
  assumes "process_structures wl Ss st = Inr st'" and "state_shaped n st" and "v < n"
    and "map_of (volumes st) DATA_FIELD_SEGMENTATION = Some f"
    and "\<forall>j < length Ss.
           properties_for_wavelength (Ss ! j) wl DATA_FIELD_SEGMENTATION \<noteq> NoneValue \<longrightarrow>
           voxel_claims (global_volume_fractions st ! v)
             (map (\<lambda>S. geometrical_volume S ! v) Ss) ! j \<le> max_added_fractions st ! v"
  shows "field_at (volumes st') DATA_FIELD_SEGMENTATION v = Some (f ! v)
         \<and> max_added_fractions st' ! v = max_added_fractions st ! v"
  using assms
proof (induction Ss arbitrary: st f)
  case Nil
  then show ?case by (simp add: field_at_def)
next
  case (Cons S Ss)
  let ?g = "global_volume_fractions st ! v" and ?s = "geometrical_volume S ! v"
  let ?m = "max_added_fractions st ! v"
  from Cons.prems(1) obtain st1 where
    s1: "process_structure wl S st = Inr st1" and r: "process_structures wl Ss st1 = Inr st'"
    by (auto split: sum.splits)
  have sh1: "state_shaped n st1"
    by (rule process_structure_shaped [OF s1 Cons.prems(2)])
  from Cons.prems(5) have head:
    "properties_for_wavelength S wl DATA_FIELD_SEGMENTATION \<noteq> NoneValue \<longrightarrow>
       (if 0 < ?s \<and> ?g < 1 then voxel_added ?g ?s else 0) \<le> ?m"
    by (auto split: if_splits)
  from Cons.prems(5) have tail:
    "\<forall>j < length Ss.
       properties_for_wavelength (Ss ! j) wl DATA_FIELD_SEGMENTATION \<noteq> NoneValue \<longrightarrow>
       voxel_claims (if 0 < ?s \<and> ?g < 1 then ?g + voxel_added ?g ?s else ?g)
         (map (\<lambda>S. geometrical_volume S ! v) Ss) ! j \<le> ?m"
    by (auto split: if_splits)
  from segmentation_voxel_step [OF s1 Cons.prems(2,3,4) refl refl refl] head
  obtain f1 where t1: "map_of (volumes st1) DATA_FIELD_SEGMENTATION = Some f1"
    and g1: "global_volume_fractions st1 ! v
               = (if 0 < ?s \<and> ?g < 1 then ?g + voxel_added ?g ?s else ?g)"
    and f1: "f1 ! v = f ! v" and m1: "max_added_fractions st1 ! v = ?m"
    by (auto split: if_splits)
  from tail have "\<forall>j < length Ss.
       properties_for_wavelength (Ss ! j) wl DATA_FIELD_SEGMENTATION \<noteq> NoneValue \<longrightarrow>
       voxel_claims (global_volume_fractions st1 ! v)
         (map (\<lambda>S. geometrical_volume S ! v) Ss) ! j \<le> max_added_fractions st1 ! v"
    by (simp only: g1 m1)
  from Cons.IH [OF r sh1 Cons.prems(3) t1 this] f1 m1 show ?case by simp
qed

text \<open>
  The structure whose claim at the voxel exceeds the recorded maximum and the claim of
  every other structure that carries a label owns the voxel at the end of the pass.
\<close>

lemma segmentation_winner:
  assumes "process_structures wl Ss st = Inr st'" and "state_shaped n st" and "v < n"
    and "map_of (volumes st) DATA_FIELD_SEGMENTATION = Some f"
    and "0 \<le> max_added_fractions st ! v"
    and "i < length Ss"
    and "properties_for_wavelength (Ss ! i) wl DATA_FIELD_SEGMENTATION = NumberValue c"
    and "max_added_fractions st ! v
           < voxel_claims (global_volume_fractions st ! v)
               (map (\<lambda>S. geometrical_volume S ! v) Ss) ! i"
    and "\<forall>j < length Ss. j \<noteq> i \<and>
           properties_for_wavelength (Ss ! j) wl DATA_FIELD_SEGMENTATION \<noteq> NoneValue \<longrightarrow>
           voxel_claims (global_volume_fractions st ! v)
             (map (\<lambda>S. geometrical_volume S ! v) Ss) ! j
           < voxel_claims (global_volume_fractions st ! v)
               (map (\<lambda>S. geometrical_volume S ! v) Ss) ! i"
  shows "field_at (volumes st') DATA_FIELD_SEGMENTATION v = Some c"
  using assms
proof (induction Ss arbitrary: st f i)
  case Nil
  then show ?case by simp
next
  case (Cons S Ss)
  let ?g = "global_volume_fractions st ! v" and ?s = "geometrical_volume S ! v"
  let ?m = "max_added_fractions st ! v"
  let ?g1 = "if 0 < ?s \<and> ?g < 1 then ?g + voxel_added ?g ?s else ?g"
  let ?c0 = "if 0 < ?s \<and> ?g < 1 then voxel_added ?g ?s else 0"
  let ?tail = "voxel_claims ?g1 (map (\<lambda>S. geometrical_volume S ! v) Ss)"
  have claims: "voxel_claims ?g (map (\<lambda>S. geometrical_volume S ! v) (S # Ss)) = ?c0 # ?tail"
    by simp
  from Cons.prems(1) obtain st1 where
    s1: "process_structure wl S st = Inr st1" and r: "process_structures wl Ss st1 = Inr st'"
    by (auto split: sum.splits)
  have sh1: "state_shaped n st1"
    by (rule process_structure_shaped [OF s1 Cons.prems(2)])
  note step = segmentation_voxel_step [OF s1 Cons.prems(2,3,4) refl refl refl]
  show ?case
  proof (cases i)
    case 0
    from Cons.prems(8) have win: "?m < ?c0"
      unfolding claims by (simp add: 0)
    with Cons.prems(5) have act: "0 < ?s \<and> ?g < 1" and win': "?m < voxel_added ?g ?s"
      by (auto split: if_splits)
    from Cons.prems(7) have lab:
      "properties_for_wavelength S wl DATA_FIELD_SEGMENTATION = NumberValue c"
      by (simp add: 0)
    from step lab act win'
    obtain f1 where t1: "map_of (volumes st1) DATA_FIELD_SEGMENTATION = Some f1"
      and g1: "global_volume_fractions st1 ! v = ?g1"
      and f1: "f1 ! v = c" and m1: "max_added_fractions st1 ! v = voxel_added ?g ?s"
      by auto
    from Cons.prems(9) have "\<forall>j < length Ss.
        properties_for_wavelength (Ss ! j) wl DATA_FIELD_SEGMENTATION \<noteq> NoneValue \<longrightarrow>
        ?tail ! j < ?c0"
      unfolding claims by (auto simp: 0)
    then have "\<forall>j < length Ss.
        properties_for_wavelength (Ss ! j) wl DATA_FIELD_SEGMENTATION \<noteq> NoneValue \<longrightarrow>
        voxel_claims (global_volume_fractions st1 ! v)
          (map (\<lambda>S. geometrical_volume S ! v) Ss) ! j \<le> max_added_fractions st1 ! v"
      using act by (simp add: g1 m1 less_imp_le)
    from segmentation_stable [OF r sh1 Cons.prems(3) t1 this] f1
    show ?thesis by simp
  next
    case (Suc i')
    from Cons.prems(6) have i': "i' < length Ss" by (simp add: Suc)
    from Cons.prems(7) have lab:
      "properties_for_wavelength (Ss ! i') wl DATA_FIELD_SEGMENTATION = NumberValue c"
      by (simp add: Suc)
    from Cons.prems(8) have beats: "?m < ?tail ! i'"
      unfolding claims by (simp add: Suc)
    from Cons.prems(9) have head:
      "properties_for_wavelength S wl DATA_FIELD_SEGMENTATION \<noteq> NoneValue \<longrightarrow>
         ?c0 < ?tail ! i'"
      unfolding claims by (auto simp: Suc)
    from Cons.prems(9) have others: "\<forall>j < length Ss. j \<noteq> i' \<and>
        properties_for_wavelength (Ss ! j) wl DATA_FIELD_SEGMENTATION \<noteq> NoneValue \<longrightarrow>
        ?tail ! j < ?tail ! i'"
      unfolding claims by (auto simp: Suc)
    from step obtain f1 where t1: "map_of (volumes st1) DATA_FIELD_SEGMENTATION = Some f1"
      and g1: "global_volume_fractions st1 ! v = ?g1"
      and m1: "(properties_for_wavelength S wl DATA_FIELD_SEGMENTATION = NoneValue
                 \<and> max_added_fractions st1 ! v = ?m)
               \<or> (properties_for_wavelength S wl DATA_FIELD_SEGMENTATION \<noteq> NoneValue
                   \<and> max_added_fractions st1 ! v
                       = (if 0 < ?s \<and> ?g < 1 \<and> ?m < voxel_added ?g ?s
                          then voxel_added ?g ?s else ?m))"
      by auto
    have m1_nonneg: "0 \<le> max_added_fractions st1 ! v"
      using m1 Cons.prems(5) by (auto split: if_splits)
    have m1_beaten: "max_added_fractions st1 ! v < ?tail ! i'"
      using m1 beats head by (auto split: if_splits)
    have b: "max_added_fractions st1 ! v
           < voxel_claims (global_volume_fractions st1 ! v)
               (map (\<lambda>S. geometrical_volume S ! v) Ss) ! i'"
      using m1_beaten by (simp only: g1)
    have o: "\<forall>j < length Ss. j \<noteq> i' \<and>
           properties_for_wavelength (Ss ! j) wl DATA_FIELD_SEGMENTATION \<noteq> NoneValue \<longrightarrow>
           voxel_claims (global_volume_fractions st1 ! v)
             (map (\<lambda>S. geometrical_volume S ! v) Ss) ! j
           < voxel_claims (global_volume_fractions st1 ! v)
               (map (\<lambda>S. geometrical_volume S ! v) Ss) ! i'"
      using others by (simp only: g1)
    from Cons.IH [OF r sh1 Cons.prems(3) t1 m1_nonneg i' lab b o]
    show ?thesis .
  qed
qed

section \<open>Ownership of the segmentation and closed voxels\<close>

lemma process_structures_keys:
  assumes "process_structures wl Ss st = Inr st'"
  shows "map fst (volumes st') = map fst (volumes st)"
  using assms
proof (induction Ss arbitrary: st)
  case Nil
  then show ?case by simp
next
  case (Cons S Ss)
  from Cons.prems obtain st1 where
    s1: "process_structure wl S st = Inr st1" and r: "process_structures wl Ss st1 = Inr st'"
    by (auto split: sum.splits)
  from process_keys_keys [OF process_structure_Inr(3) [OF s1]] Cons.IH [OF r]
  show ?case by simp
qed

lemma composite_structures_tracked:
  assumes "composite_structures cfg Ss = Inr st" and "K \<in> set (volume_keys cfg)"
  shows "\<exists>f. map_of (volumes st) K = Some f"
proof -
  have "map fst (volumes st) = remdups (volume_keys cfg)"
    using process_structures_keys [OF composite_structures_Inr [OF assms(1)]]
    by (simp add: initial_state_def comp_def)
  with assms(2) have "K \<in> fst ` set (volumes st)"
    by (metis set_map set_remdups)
  then show ?thesis
    by (cases "map_of (volumes st) K") (auto simp: map_of_eq_None_iff)
qed

text \<open>
  C4: a structure that carries a label writes it at exactly the active voxels where its
  newly claimed fraction exceeds the maximum applied fraction recorded so far, and records
  its fraction as the new maximum there; elsewhere label and maximum stay. Hence, after
  the whole pass, the label of a voxel is that of the structure whose claimed fraction
  there is positive and larger than that of every other structure carrying a label,
  wherever that structure stands in the sequence.
\<close>

theorem segmentation_ownership:
  assumes "composite_structures cfg (take k structures) = Inr st"
    and "composite_structures cfg (take (Suc k) structures) = Inr st'"
    and "k < length structures"
    and "composite_structures cfg structures = Inr fin"
    and "DATA_FIELD_SEGMENTATION \<in> set (volume_keys cfg)"
    and "v < voxel_count cfg"
  shows "(\<forall>c. properties_for_wavelength (structures ! k) (wavelength cfg)
                DATA_FIELD_SEGMENTATION = NumberValue c \<longrightarrow>
            (if fraction_mask (global_volume_fractions st)
                  (geometrical_volume (structures ! k)) ! v
                \<and> max_added_fractions st ! v
                    < added_volume_fraction (global_volume_fractions st)
                        (geometrical_volume (structures ! k)) ! v
             then field_at (volumes st') DATA_FIELD_SEGMENTATION v = Some c
                  \<and> max_added_fractions st' ! v
                      = added_volume_fraction (global_volume_fractions st)
                          (geometrical_volume (structures ! k)) ! v
             else field_at (volumes st') DATA_FIELD_SEGMENTATION v
                    = field_at (volumes st) DATA_FIELD_SEGMENTATION v
                  \<and> max_added_fractions st' ! v = max_added_fractions st ! v))
         \<and> (\<forall>i c. i < length structures
               \<and> properties_for_wavelength (structures ! i) (wavelength cfg)
                   DATA_FIELD_SEGMENTATION = NumberValue c
               \<and> 0 < voxel_claims 0 (map (\<lambda>S. geometrical_volume S ! v) structures) ! i
               \<and> (\<forall>j < length structures. j \<noteq> i
                     \<and> properties_for_wavelength (structures ! j) (wavelength cfg)
                         DATA_FIELD_SEGMENTATION \<noteq> NoneValue \<longrightarrow>
                     voxel_claims 0 (map (\<lambda>S. geometrical_volume S ! v) structures) ! j
                       < voxel_claims 0 (map (\<lambda>S. geometrical_volume S ! v) structures) ! i)
             \<longrightarrow> field_at (volumes fin) DATA_FIELD_SEGMENTATION v = Some c)"
proof (intro conjI allI impI)
  fix c
  assume label: "properties_for_wavelength (structures ! k) (wavelength cfg)
      DATA_FIELD_SEGMENTATION = NumberValue c"
  let ?S = "structures ! k"
  have "take (Suc k) structures = take k structures @ [?S]"
    using assms(3) by (simp add: take_Suc_conv_app_nth)
  with composite_structures_append [OF assms(1), of "[?S]"] assms(2)
  have run: "process_structure (wavelength cfg) ?S st = Inr st'"
    by (simp split: sum.splits)
  note sh = composite_structures_shaped [OF assms(1)]
  from composite_structures_tracked [OF assms(1,5)]
  obtain f where tracked: "map_of (volumes st) DATA_FIELD_SEGMENTATION = Some f" ..
  from sh have lg: "length (global_volume_fractions st) = voxel_count cfg"
    by (simp add: state_shaped_def)
  have ls: "length (geometrical_volume ?S) = length (global_volume_fractions st)"
    by (rule process_structure_Inr(1) [OF run])
  have nm: "fraction_mask (global_volume_fractions st) (geometrical_volume ?S) ! v
      = (0 < geometrical_volume ?S ! v \<and> global_volume_fractions st ! v < 1)"
    using nth_fraction_mask [OF ls, of v] assms(6) lg by simp
  have na: "added_volume_fraction (global_volume_fractions st) (geometrical_volume ?S) ! v
      = voxel_added (global_volume_fractions st ! v) (geometrical_volume ?S ! v)"
    using nth_added_volume_fraction [OF ls, of v] assms(6) lg by simp
  from process_structure_segmentation [OF run sh assms(6) tracked label] tracked
  show "if fraction_mask (global_volume_fractions st) (geometrical_volume ?S) ! v
           \<and> max_added_fractions st ! v
               < added_volume_fraction (global_volume_fractions st) (geometrical_volume ?S) ! v
        then field_at (volumes st') DATA_FIELD_SEGMENTATION v = Some c
             \<and> max_added_fractions st' ! v
                 = added_volume_fraction (global_volume_fractions st) (geometrical_volume ?S) ! v
        else field_at (volumes st') DATA_FIELD_SEGMENTATION v
               = field_at (volumes st) DATA_FIELD_SEGMENTATION v
             \<and> max_added_fractions st' ! v = max_added_fractions st ! v"
    by (auto simp: nm na field_at_def)
next
  fix i c
  assume a: "i < length structures
      \<and> properties_for_wavelength (structures ! i) (wavelength cfg)
          DATA_FIELD_SEGMENTATION = NumberValue c
      \<and> 0 < voxel_claims 0 (map (\<lambda>S. geometrical_volume S ! v) structures) ! i
      \<and> (\<forall>j < length structures. j \<noteq> i
            \<and> properties_for_wavelength (structures ! j) (wavelength cfg)
                DATA_FIELD_SEGMENTATION \<noteq> NoneValue \<longrightarrow>
            voxel_claims 0 (map (\<lambda>S. geometrical_volume S ! v) structures) ! j
              < voxel_claims 0 (map (\<lambda>S. geometrical_volume S ! v) structures) ! i)"
  note b = initial_state_bookkeeping [OF assms(6)]
  have "composite_structures cfg [] = Inr (initial_state cfg)"
    using assms(4)
    by (auto simp: composite_structures_def create_empty_volumes_def initial_state_def
        voxel_count_def split: prod.splits if_splits)
  from composite_structures_tracked [OF this assms(5)]
  obtain f where tracked: "map_of (volumes (initial_state cfg)) DATA_FIELD_SEGMENTATION = Some f" ..
  show "field_at (volumes fin) DATA_FIELD_SEGMENTATION v = Some c"
  proof (rule segmentation_winner [OF composite_structures_Inr [OF assms(4)]
        initial_state_shaped assms(6) tracked])
    show "0 \<le> max_added_fractions (initial_state cfg) ! v" using b by simp
    show "i < length structures" using a by simp
    show "properties_for_wavelength (structures ! i) (wavelength cfg)
        DATA_FIELD_SEGMENTATION = NumberValue c" using a by simp
    show "max_added_fractions (initial_state cfg) ! v
        < voxel_claims (global_volume_fractions (initial_state cfg) ! v)
            (map (\<lambda>S. geometrical_volume S ! v) structures) ! i"
      using a b by simp
    show "\<forall>j < length structures. j \<noteq> i \<and>
        properties_for_wavelength (structures ! j) (wavelength cfg)
          DATA_FIELD_SEGMENTATION \<noteq> NoneValue \<longrightarrow>
        voxel_claims (global_volume_fractions (initial_state cfg) ! v)
          (map (\<lambda>S. geometrical_volume S ! v) structures) ! j
        < voxel_claims (global_volume_fractions (initial_state cfg) ! v)
            (map (\<lambda>S. geometrical_volume S ! v) structures) ! i"
      using a b by simp
  qed
qed

theorem segmentation_ownership_witness:
  "composite_structures example_settings
     [example_structure [3/10, 0] (NumberValue 2) (NumberValue 1),
      example_structure [1/2, 0] (NumberValue 4) (NumberValue 2)]
   = Inr \<lparr>volumes = [(''mua'', [13/5, 0]), (''seg'', [2, 0])],
          global_volume_fractions = [4/5, 0], max_added_fractions = [1/2, 0]\<rparr>
   \<and> composite_structures example_settings
     [example_structure [3/10, 0] (NumberValue 2) (NumberValue 1)]
   = Inr \<lparr>volumes = [(''mua'', [3/5, 0]), (''seg'', [1, 0])],
          global_volume_fractions = [3/10, 0], max_added_fractions = [3/10, 0]\<rparr>
   \<and> voxel_claims 0 [3/10, 1/2] = [3/10, 1/2]
   \<and> added_volume_fraction [3/10, 0] [1/2, 0] ! 0 = 1/2
   \<and> field_at [(''mua'', [13/5, 0]), (''seg'', [2, 0])] DATA_FIELD_SEGMENTATION 0 = Some 2"
proof -
  let ?A = "example_structure [3/10, 0] (NumberValue 2) (NumberValue 1)"
  let ?B = "example_structure [1/2, 0] (NumberValue 4) (NumberValue 2)"
  let ?st = "\<lparr>volumes = [(''mua'', [3/5, 0]), (''seg'', [1, 0])],
          global_volume_fractions = [3/10, 0], max_added_fractions = [3/10, 0::real]\<rparr>"
  let ?fin = "\<lparr>volumes = [(''mua'', [13/5, 0]), (''seg'', [2, 0])],
          global_volume_fractions = [4/5, 0], max_added_fractions = [1/2, 0::real]\<rparr>"
  have pre: "composite_structures example_settings (take 1 [?A, ?B]) = Inr ?st"
    by (simp add: evaluation)
  have step: "composite_structures example_settings (take (Suc 1) [?A, ?B]) = Inr ?fin"
    using example_run by simp
  have k: "(1::nat) < length [?A, ?B]" by simp
  have tracked: "DATA_FIELD_SEGMENTATION \<in> set (volume_keys example_settings)"
    by (simp add: evaluation)
  have v: "(0::nat) < voxel_count example_settings"
    by (simp add: evaluation)
  have claims: "voxel_claims 0 (map (\<lambda>S. geometrical_volume S ! 0) [?A, ?B]) = [3/10, 1/2]"
    by (simp add: example_structure_def voxel_added_def)
  have added: "added_volume_fraction [3/10, 0] [1/2, 0] ! 0 = 1/2"
    by (simp add: evaluation)
  note t = segmentation_ownership [OF pre step k example_run tracked v]
  from t have "1 < length [?A, ?B]
      \<and> properties_for_wavelength ([?A, ?B] ! 1) (wavelength example_settings)
          DATA_FIELD_SEGMENTATION = NumberValue 2
      \<and> 0 < voxel_claims 0 (map (\<lambda>S. geometrical_volume S ! 0) [?A, ?B]) ! 1
      \<and> (\<forall>j < length [?A, ?B]. j \<noteq> 1
            \<and> properties_for_wavelength ([?A, ?B] ! j) (wavelength example_settings)
                DATA_FIELD_SEGMENTATION \<noteq> NoneValue \<longrightarrow>
            voxel_claims 0 (map (\<lambda>S. geometrical_volume S ! 0) [?A, ?B]) ! j
              < voxel_claims 0 (map (\<lambda>S. geometrical_volume S ! 0) [?A, ?B]) ! 1)
    \<longrightarrow> field_at (volumes ?fin) DATA_FIELD_SEGMENTATION 0 = Some 2"
    by blast
  moreover have "\<forall>j < length [?A, ?B]. j \<noteq> 1
            \<and> properties_for_wavelength ([?A, ?B] ! j) (wavelength example_settings)
                DATA_FIELD_SEGMENTATION \<noteq> NoneValue \<longrightarrow>
            voxel_claims 0 (map (\<lambda>S. geometrical_volume S ! 0) [?A, ?B]) ! j
              < voxel_claims 0 (map (\<lambda>S. geometrical_volume S ! 0) [?A, ?B]) ! 1"
    unfolding claims by (auto simp: less_Suc_eq)
  moreover have "properties_for_wavelength ([?A, ?B] ! 1) (wavelength example_settings)
          DATA_FIELD_SEGMENTATION = NumberValue 2"
    by (simp add: evaluation)
  ultimately have "field_at (volumes ?fin) DATA_FIELD_SEGMENTATION 0 = Some 2"
    unfolding claims by simp
  then have lab: "field_at [(''mua'', [13/5, 0]), (''seg'', [2, 0])] DATA_FIELD_SEGMENTATION 0
      = Some 2"
    by simp
  have c2: "voxel_claims 0 [3/10, 1/2] = [3/10, 1/2]"
    by (simp add: voxel_added_def)
  have pre': "composite_structures example_settings [?A] = Inr ?st"
    using pre by simp
  show ?thesis
    by (intro conjI) (rule example_run pre' c2 added lab)+
qed

text \<open>
  C6: once the cumulative occupancy of a voxel is 1, no later structure changes the
  cumulative occupancy, the maximum applied fraction or any field there. In particular, when
  the first structure has occupancy 1 at the voxel and carries a label, it claims the whole
  voxel and the voxel keeps its label, whatever structures follow.
\<close>

theorem fully_claimed_voxel_closed:
  assumes "composite_structures cfg pre = Inr st1"
    and "composite_structures cfg (pre @ rest) = Inr st2"
    and "v < voxel_count cfg"
  shows "(global_volume_fractions st1 ! v = 1 \<longrightarrow>
            global_volume_fractions st2 ! v = 1
            \<and> max_added_fractions st2 ! v = max_added_fractions st1 ! v
            \<and> (\<forall>K. field_at (volumes st2) K v = field_at (volumes st1) K v))
         \<and> (\<forall>A a. pre = [A] \<and> geometrical_volume A ! v = 1
               \<and> properties_for_wavelength A (wavelength cfg) DATA_FIELD_SEGMENTATION
                   = NumberValue a
               \<and> DATA_FIELD_SEGMENTATION \<in> set (volume_keys cfg)
             \<longrightarrow> global_volume_fractions st1 ! v = 1
                 \<and> field_at (volumes st2) DATA_FIELD_SEGMENTATION v = Some a)"
proof -
  have rest: "process_structures (wavelength cfg) rest st1 = Inr st2"
    using composite_structures_append [OF assms(1), of rest] assms(2) by simp
  note sh1 = composite_structures_shaped [OF assms(1)]
  have closed: "global_volume_fractions st2 ! v = 1
            \<and> max_added_fractions st2 ! v = max_added_fractions st1 ! v
            \<and> (\<forall>K. field_at (volumes st2) K v = field_at (volumes st1) K v)"
    if full: "global_volume_fractions st1 ! v = 1"
  proof -
    have "\<forall>S \<in> set rest.
        \<not> (0 < geometrical_volume S ! v \<and> global_volume_fractions st1 ! v < 1)"
      using full by simp
    from process_structures_frame [OF rest sh1 assms(3) this] full
    show ?thesis by simp
  qed
  have first: "global_volume_fractions st1 ! v = 1
                 \<and> field_at (volumes st2) DATA_FIELD_SEGMENTATION v = Some a"
    if a: "pre = [A]" "geometrical_volume A ! v = 1"
      "properties_for_wavelength A (wavelength cfg) DATA_FIELD_SEGMENTATION = NumberValue a"
      "DATA_FIELD_SEGMENTATION \<in> set (volume_keys cfg)"
    for A a
  proof -
    from composite_structures_Inr [OF assms(1)] a(1)
    have run: "process_structure (wavelength cfg) A (initial_state cfg) = Inr st1"
      by (simp split: sum.splits)
    note b = initial_state_bookkeeping [OF assms(3)]
    have va: "voxel_added 0 1 = 1" by (simp add: voxel_added_def)
    have "v < length (global_volume_fractions (initial_state cfg))"
      using assms(3) by (simp add: initial_state_def)
    from global_fraction_step [OF run this] b a(2) va
    have g1: "global_volume_fractions st1 ! v = 1" by simp
    have "composite_structures cfg [] = Inr (initial_state cfg)"
      using assms(1)
      by (auto simp: composite_structures_def create_empty_volumes_def initial_state_def
          voxel_count_def split: prod.splits if_splits)
    from composite_structures_tracked [OF this a(4)]
    obtain f where tracked:
      "map_of (volumes (initial_state cfg)) DATA_FIELD_SEGMENTATION = Some f" ..
    from process_structure_segmentation [OF run initial_state_shaped assms(3) tracked a(3)]
      b a(2) va
    have "field_at (volumes st1) DATA_FIELD_SEGMENTATION v = Some a" by simp
    with closed [OF g1] g1 show ?thesis by simp
  qed
  from closed first show ?thesis by blast
qed

theorem fully_claimed_voxel_closed_witness:
  "composite_structures example_settings
     [example_structure [1, 0] (NumberValue 2) (NumberValue 1)]
   = Inr \<lparr>volumes = [(''mua'', [2, 0]), (''seg'', [1, 0])],
          global_volume_fractions = [1, 0], max_added_fractions = [1, 0]\<rparr>
   \<and> composite_structures example_settings
     ([example_structure [1, 0] (NumberValue 2) (NumberValue 1)]
      @ [example_structure [1, 1/2] (NumberValue 4) (NumberValue 2)])
   = Inr \<lparr>volumes = [(''mua'', [2, 2]), (''seg'', [1, 2])],
          global_volume_fractions = [1, 1/2], max_added_fractions = [1, 1/2]\<rparr>
   \<and> field_at [(''mua'', [2, 2]), (''seg'', [1, 2])] DATA_FIELD_SEGMENTATION 0 = Some 1
   \<and> field_at [(''mua'', [2, 2]), (''seg'', [1, 2])] ''mua'' 0
       = field_at [(''mua'', [2, 0]), (''seg'', [1, 0])] ''mua'' 0"
proof -
  let ?A = "example_structure [1, 0] (NumberValue 2) (NumberValue 1)"
  let ?B = "example_structure [1, 1/2] (NumberValue 4) (NumberValue 2)"
  let ?st1 = "\<lparr>volumes = [(''mua'', [2, 0]), (''seg'', [1, 0])],
          global_volume_fractions = [1, 0], max_added_fractions = [1, 0::real]\<rparr>"
  let ?st2 = "\<lparr>volumes = [(''mua'', [2, 2]), (''seg'', [1, 2])],
          global_volume_fractions = [1, 1/2], max_added_fractions = [1, 1/2::real]\<rparr>"
  have r1: "composite_structures example_settings [?A] = Inr ?st1"
    by (simp add: evaluation)
  have r2: "composite_structures example_settings ([?A] @ [?B]) = Inr ?st2"
    by (simp add: evaluation)
  have v: "(0::nat) < voxel_count example_settings"
    by (simp add: evaluation)
  note t = fully_claimed_voxel_closed [OF r1 r2 v]
  from t have c: "field_at (volumes ?st2) ''mua'' 0 = field_at (volumes ?st1) ''mua'' 0"
    by simp
  from t have "[?A] = [?A] \<and> geometrical_volume ?A ! 0 = 1
      \<and> properties_for_wavelength ?A (wavelength example_settings) DATA_FIELD_SEGMENTATION
          = NumberValue 1
      \<and> DATA_FIELD_SEGMENTATION \<in> set (volume_keys example_settings)
    \<longrightarrow> field_at (volumes ?st2) DATA_FIELD_SEGMENTATION 0 = Some 1"
    by blast
  then have "field_at (volumes ?st2) DATA_FIELD_SEGMENTATION 0 = Some 1"
    by (simp add: evaluation)
  with r1 r2 c show ?thesis by simp
qed

end
